theory Spec2Isabelle
  imports Main "HOL-Library.Char_ord"
begin

section \<open>Values, binding objects and errors\<close>

text \<open>
  The function under study is \<^verbatim>\<open>SqlPilot(sql, params)\<close> of \<^verbatim>\<open>index.js\<close>.  Of a JavaScript
  value the code observes whether it is an array (\<^verbatim>\<open>Array.isArray\<close>) and, for the value found
  under \<^verbatim>\<open>hasOwnProperty\<close>, whether and how it can be called.  So a value is
  \<^item> \<open>Undefined\<close>, what reading a missing property gives;
  \<^item> \<open>Arr\<close>, an array: one entry for each index below its length, \<open>Some\<close> element or
    \<open>None\<close> for a hole (as in \<^verbatim>\<open>[1, , 3]\<close>);
  \<^item> \<open>HasOwnPropertyFn\<close>, the built-in method \<^verbatim>\<open>Object.prototype.hasOwnProperty\<close>;
  \<^item> \<open>Fn\<close>, any other function, identified by a name;
  \<^item> \<open>Prim\<close>, any other value (null, a boolean, a number, a string, an object that is
    neither an array nor a function), kept opaque.
  Strings are lists of \<open>char\<close>, one for each code unit; the code compares them with ASCII
  characters only.
\<close>

datatype 'a jsval =
    Undefined
  | Prim 'a
  | Arr "'a jsval option list"
  | HasOwnPropertyFn
  | Fn string

text \<open>An object: its own properties, and the object it inherits from, if any.\<close>

datatype 'a jsobj = JsObj (own: "string \<rightharpoonup> 'a jsval") (proto: "'a jsobj option")

text \<open>
  \<^verbatim>\<open>Object.prototype\<close> with its methods (its accessor \<^verbatim>\<open>__proto__\<close> is left out).  An object
  literal inherits from it, and a later entry of the literal overrides an earlier one of the
  same name (an entry named \<^verbatim>\<open>__proto__\<close>, which a literal takes as its prototype, is not
  meant to occur); \<^verbatim>\<open>Object.create(null)\<close> inherits from nothing.  Other prototypes are
  built with \<open>JsObj\<close>.
\<close>

definition ObjectPrototype :: "'a jsobj" where
  "ObjectPrototype =
     JsObj (map_of
       [(''constructor'', Fn ''Object''),
        (''hasOwnProperty'', HasOwnPropertyFn),
        (''isPrototypeOf'', Fn ''isPrototypeOf''),
        (''propertyIsEnumerable'', Fn ''propertyIsEnumerable''),
        (''toLocaleString'', Fn ''toLocaleString''),
        (''toString'', Fn ''toString''),
        (''valueOf'', Fn ''valueOf''),
        (''__defineGetter__'', Fn ''__defineGetter__''),
        (''__defineSetter__'', Fn ''__defineSetter__''),
        (''__lookupGetter__'', Fn ''__lookupGetter__''),
        (''__lookupSetter__'', Fn ''__lookupSetter__'')]) None"

definition object_literal :: "(string \<times> 'a jsval) list \<Rightarrow> 'a jsobj" where
  "object_literal props = JsObj (map_of (rev props)) (Some ObjectPrototype)"

definition object_create_null :: "(string \<times> 'a jsval) list \<Rightarrow> 'a jsobj" where
  "object_create_null props = JsObj (map_of (rev props)) None"

text \<open>
  Reading a property, \<^verbatim>\<open>obj[k]\<close>: the own property if there is one, else what the
  prototype chain gives, else \<^verbatim>\<open>undefined\<close>.
\<close>

fun js_get :: "'a jsobj \<Rightarrow> string \<Rightarrow> 'a jsval" where
  "js_get (JsObj props parent) k =
     (case props k of
        Some v \<Rightarrow> v
      | None \<Rightarrow> (case parent of None \<Rightarrow> Undefined | Some p \<Rightarrow> js_get p k))"

datatype error = TypeError | Thrown

text \<open>
  The call \<^verbatim>\<open>callee.call(this, arg)\<close> with a string argument, as far as the code uses it:
  it throws, or returns a value of which only the truthiness is looked at.  The built-in
  \<^verbatim>\<open>hasOwnProperty\<close> tells whether \<open>arg\<close> is an own property of \<open>this\<close>.  What another
  function does is not in the source: it is the parameter \<open>env\<close>, which gives for the
  function's name, \<open>this\<close> and the argument the exception or the truthiness of the result
  (such a function is taken not to change the objects it sees).  Calling a value that is
  no function throws a \<^verbatim>\<open>TypeError\<close>.
\<close>

type_synonym 'a calls = "string \<Rightarrow> 'a jsobj \<Rightarrow> string \<Rightarrow> error + bool"

definition js_call :: "'a calls \<Rightarrow> 'a jsval \<Rightarrow> 'a jsobj \<Rightarrow> string \<Rightarrow> error + bool" where
  "js_call env callee this arg =
     (case callee of
        HasOwnPropertyFn \<Rightarrow> Inr (own this arg \<noteq> None)
      | Fn name \<Rightarrow> env name this arg
      | _ \<Rightarrow> Inl TypeError)"

section \<open>The rewriter\<close>

text \<open>
  \<^verbatim>\<open>Array.prototype.join\<close> on an array whose elements are strings: a hole counts as the
  empty string.
\<close>

definition element_text :: "string option \<Rightarrow> string" where
  "element_text x = (case x of None \<Rightarrow> [] | Some s \<Rightarrow> s)"

fun join :: "string \<Rightarrow> string option list \<Rightarrow> string" where
  "join sep [] = []"
| "join sep [x] = element_text x"
| "join sep (x # y # ys) = element_text x @ sep @ join sep (y # ys)"

text \<open>The elements that \<^verbatim>\<open>forEach\<close> visits, in order: holes are skipped.\<close>

fun elements :: "'b option list \<Rightarrow> 'b list" where
  "elements [] = []"
| "elements (None # xs) = elements xs"
| "elements (Some x # xs) = x # elements xs"

text \<open>
  The callback given to \<^verbatim>\<open>replace\<close>.  It receives the matched text and the captured key,
  reads and extends the array \<^verbatim>\<open>newParams\<close> of the enclosing call (passed in and returned
  here), and returns the replacement text.  \<^verbatim>\<open>params.hasOwnProperty(key)\<close> reads the
  property \<^verbatim>\<open>hasOwnProperty\<close> of \<^verbatim>\<open>params\<close> and calls what it found, with \<^verbatim>\<open>params\<close> as
  \<^verbatim>\<open>this\<close>.  \<^verbatim>\<open>map\<close> keeps the holes of the array.
\<close>

definition replacer ::
  "'a calls \<Rightarrow> 'a jsobj \<Rightarrow> string \<Rightarrow> string \<Rightarrow> 'a jsval list \<Rightarrow> error + (string \<times> 'a jsval list)" where
  "replacer env params match key newParams =
     (case js_call env (js_get params ''hasOwnProperty'') params key of
        Inl e \<Rightarrow> Inl e
      | Inr truthy \<Rightarrow>
          (if truthy then
             (let v = js_get params key in
              case v of
                Arr items \<Rightarrow>
                  (let placeholders = join '', '' (map (map_option (\<lambda>_. ''?'')) items)
                   in Inr (''('' @ placeholders @ '')'', newParams @ elements items))
              | _ \<Rightarrow> Inr (''?'', newParams @ [v]))
           else Inr (match, newParams)))"

text \<open>The character class \<^verbatim>\<open>[a-zA-Z0-9_]\<close>.\<close>

definition isWordChar :: "char \<Rightarrow> bool" where
  "isWordChar c \<longleftrightarrow>
     (CHR ''a'' \<le> c \<and> c \<le> CHR ''z'') \<or> (CHR ''A'' \<le> c \<and> c \<le> CHR ''Z'') \<or>
     (CHR ''0'' \<le> c \<and> c \<le> CHR ''9'') \<or> c = CHR ''_''"

text \<open>
  \<^verbatim>\<open>sql.replace(/:([a-zA-Z0-9_]+)/g, f)\<close>: the string is scanned from the left; at a colon
  followed by at least one word character the match is the colon with the longest run of
  word characters after it, the callback gives its replacement, and the scan goes on behind
  the match; any other character is copied.  The callback's state is threaded through, and
  an exception of the callback ends the call.
\<close>

function replace_global ::
  "(string \<Rightarrow> string \<Rightarrow> 's \<Rightarrow> error + (string \<times> 's)) \<Rightarrow> string \<Rightarrow> 's \<Rightarrow> error + (string \<times> 's)" where
  "replace_global f [] st = Inr ([], st)"
| "replace_global f (c # cs) st =
     (if c = CHR '':'' \<and> takeWhile isWordChar cs \<noteq> [] then
        (let key = takeWhile isWordChar cs in
         case f (c # key) key st of
           Inl e \<Rightarrow> Inl e
         | Inr (r, st') \<Rightarrow>
             (case replace_global f (dropWhile isWordChar cs) st' of
                Inl e \<Rightarrow> Inl e
              | Inr (out, st'') \<Rightarrow> Inr (r @ out, st'')))
      else
        (case replace_global f cs st of
           Inl e \<Rightarrow> Inl e
         | Inr (out, st') \<Rightarrow> Inr (c # out, st')))"
  by pat_completeness auto
termination
  by (relation "measure (\<lambda>(f, s, st). length s)")
     (auto simp: less_Suc_eq_le length_dropWhile_le)

definition SqlPilot ::
  "'a calls \<Rightarrow> string \<Rightarrow> 'a jsobj \<Rightarrow> error + (string \<times> 'a jsval list)" where
  "SqlPilot env sql params = replace_global (replacer env params) sql []"

section \<open>Notions used to state the properties\<close>

text \<open>
  A key as the pattern captures it: one or more word characters.  The token of a key is the
  colon followed by the key, and it is a whole match of the pattern where the text behind it
  does not go on with a word character.
\<close>

definition is_key :: "string \<Rightarrow> bool" where
  "is_key key \<longleftrightarrow> key \<noteq> [] \<and> list_all isWordChar key"

definition boundary :: "string \<Rightarrow> bool" where
  "boundary post \<longleftrightarrow> (case post of [] \<Rightarrow> True | c # _ \<Rightarrow> \<not> isWordChar c)"

text \<open>
  A string contains a match of \<^verbatim>\<open>:[A-Za-z0-9_]+\<close> exactly when somewhere in it a colon
  is directly followed by a word character.
\<close>

definition has_token :: "string \<Rightarrow> bool" where
  "has_token sql \<longleftrightarrow> list_ex (\<lambda>(c, d). c = CHR '':'' \<and> isWordChar d) (zip sql (tl sql))"

text \<open>
  The bindings objects on which \<^verbatim>\<open>params.hasOwnProperty\<close> is the built-in method, as it
  is where the method is inherited and no own property is in its way.
\<close>

definition builtin_test :: "'a jsobj \<Rightarrow> bool" where
  "builtin_test params \<longleftrightarrow> js_get params ''hasOwnProperty'' = HasOwnPropertyFn"

text \<open>
  Of a bound value, whether it is an array and of which length (\<open>shape\<close>), and where such
  an array has holes (\<open>layout\<close>).
\<close>

definition shape :: "'a jsval \<Rightarrow> nat option" where
  "shape v = (case v of Arr items \<Rightarrow> Some (length items) | _ \<Rightarrow> None)"

definition layout :: "'a jsval \<Rightarrow> bool list option" where
  "layout v = (case v of Arr items \<Rightarrow> Some (map (\<lambda>x. x = None) items) | _ \<Rightarrow> None)"

text \<open>
  For the examples, an environment of functions: \<^verbatim>\<open>returnsTrue\<close> and \<^verbatim>\<open>returnsFalse\<close>
  return \<^verbatim>\<open>true\<close> and \<^verbatim>\<open>false\<close> whatever they are called with, and every other named
  function throws.
\<close>

definition sample_functions :: "'a calls" where
  "sample_functions name this arg =
     (if name = ''returnsTrue'' then Inr True
      else if name = ''returnsFalse'' then Inr False
      else Inl Thrown)"

text \<open>
  Two devices for the proofs: \<open>then_scan r k\<close> continues a scan result \<open>r\<close> with the scan
  \<open>k\<close> of the text behind it, and \<open>shift st r\<close> puts the parameters \<open>st\<close> collected earlier
  in front of those of \<open>r\<close>.
\<close>

definition then_scan ::
  "error + (string \<times> 's) \<Rightarrow> ('s \<Rightarrow> error + (string \<times> 's)) \<Rightarrow> error + (string \<times> 's)" where
  "then_scan r k =
     (case r of
        Inl e \<Rightarrow> Inl e
      | Inr (out, st) \<Rightarrow>
          (case k st of Inl e \<Rightarrow> Inl e | Inr (out', st') \<Rightarrow> Inr (out @ out', st')))"

definition shift :: "'v list \<Rightarrow> error + (string \<times> 'v list) \<Rightarrow> error + (string \<times> 'v list)" where
  "shift st r = (case r of Inl e \<Rightarrow> Inl e | Inr (out, ps) \<Rightarrow> Inr (out, st @ ps))"

section \<open>The scan, piece by piece\<close>

lemma then_scan_Inl [simp]: "then_scan (Inl e) k = Inl e"
  by (simp add: then_scan_def)

lemma then_scan_Inr:
  "then_scan (Inr (out, st)) k =
     (case k st of Inl e \<Rightarrow> Inl e | Inr (out', st') \<Rightarrow> Inr (out @ out', st'))"
  by (simp add: then_scan_def)

lemma then_scan_Nil [simp]: "then_scan (Inr ([], st)) k = k st"
  by (simp add: then_scan_def split: sum.splits)

lemma then_scan_assoc:
  "then_scan (then_scan r k) h = then_scan r (\<lambda>st. then_scan (k st) h)"
  by (simp add: then_scan_def split: sum.splits prod.splits)

lemma then_scan_cong:
  "(\<And>out st. r = Inr (out, st) \<Longrightarrow> k st = k' st) \<Longrightarrow> then_scan r k = then_scan r k'"
  by (simp add: then_scan_def split: sum.splits prod.splits)

lemma shift_Inl [simp]: "shift st (Inl e) = Inl e"
  by (simp add: shift_def)

lemma shift_Inr [simp]: "shift st (Inr (out, ps)) = Inr (out, st @ ps)"
  by (simp add: shift_def)

lemma shift_then_scan:
  "(\<And>out x. r = Inr (out, x) \<Longrightarrow> k' (st @ x) = shift st (k x)) \<Longrightarrow>
   then_scan (shift st r) k' = shift st (then_scan r k)"
  by (cases r) (auto simp: then_scan_def split: sum.splits prod.splits)

lemma takeWhile_boundary:
  "boundary post \<Longrightarrow> takeWhile isWordChar (cs @ post) = takeWhile isWordChar cs"
  by (induction cs) (auto simp: boundary_def split: list.splits)

lemma dropWhile_boundary:
  "boundary post \<Longrightarrow> dropWhile isWordChar (cs @ post) = dropWhile isWordChar cs @ post"
  by (induction cs) (auto simp: boundary_def split: list.splits)

lemma colon_not_word [simp]: "\<not> isWordChar CHR '':''"
  by (simp add: isWordChar_def less_eq_char_def)

lemma boundary_token [simp]: "boundary (CHR '':'' # s)"
  by (simp add: boundary_def)

lemma takeWhile_key: "is_key key \<Longrightarrow> boundary post \<Longrightarrow> takeWhile isWordChar (key @ post) = key"
  by (cases post) (simp_all add: is_key_def list_all_iff boundary_def)

lemma dropWhile_key: "is_key key \<Longrightarrow> boundary post \<Longrightarrow> dropWhile isWordChar (key @ post) = post"
  by (cases post) (simp_all add: is_key_def list_all_iff boundary_def)

lemma replace_global_Cons:
  "replace_global f (c # cs) st =
     (if c = CHR '':'' \<and> takeWhile isWordChar cs \<noteq> [] then
        then_scan (f (c # takeWhile isWordChar cs) (takeWhile isWordChar cs) st)
          (replace_global f (dropWhile isWordChar cs))
      else then_scan (Inr ([c], st)) (replace_global f cs))"
  by (simp add: then_scan_def Let_def split: sum.splits prod.splits)

lemma replace_global_append:
  "boundary post \<Longrightarrow>
   replace_global f (pre @ post) st = then_scan (replace_global f pre st) (replace_global f post)"
proof (induction f pre st rule: replace_global.induct)
  case (1 f st)
  then show ?case by simp
next
  case (2 f c cs st)
  let ?key = "takeWhile isWordChar cs"
  let ?rest = "dropWhile isWordChar cs"
  show ?case
  proof (cases "c = CHR '':'' \<and> ?key \<noteq> []")
    case True
    have "replace_global f ((c # cs) @ post) st =
        then_scan (f (c # ?key) ?key st) (replace_global f (?rest @ post))"
      using True 2(3)
      by (simp add: replace_global_Cons takeWhile_boundary dropWhile_boundary
          del: replace_global.simps)
    also have "\<dots> = then_scan (f (c # ?key) ?key st)
        (\<lambda>st'. then_scan (replace_global f ?rest st') (replace_global f post))"
      by (rule then_scan_cong) (rule 2(1)[OF True refl _ refl 2(3)], simp)
    also have "\<dots> = then_scan (replace_global f (c # cs) st) (replace_global f post)"
      using True by (simp add: replace_global_Cons then_scan_assoc del: replace_global.simps)
    finally show ?thesis .
  next
    case False
    have "replace_global f ((c # cs) @ post) st =
        then_scan (Inr ([c], st)) (replace_global f (cs @ post))"
      using False 2(3)
      by (auto simp add: replace_global_Cons takeWhile_boundary simp del: replace_global.simps)
    also have "\<dots> = then_scan (Inr ([c], st))
        (\<lambda>st'. then_scan (replace_global f cs st') (replace_global f post))"
      by (rule then_scan_cong) (simp add: 2(2)[OF False 2(3)])
    also have "\<dots> = then_scan (replace_global f (c # cs) st) (replace_global f post)"
      using False
      by (auto simp add: replace_global_Cons then_scan_assoc simp del: replace_global.simps)
    finally show ?thesis .
  qed
qed

lemma replace_global_token:
  assumes "is_key key" and "boundary post"
  shows "replace_global f (CHR '':'' # key @ post) st =
     then_scan (f (CHR '':'' # key) key st) (replace_global f post)"
  using assms
  by (simp add: replace_global_Cons takeWhile_key dropWhile_key is_key_def
      del: replace_global.simps)

text \<open>The callback puts earlier parameters in front and otherwise does not look at them.\<close>

lemma replacer_shift:
  "replacer env params m key (st @ st') = shift st (replacer env params m key st')"
  by (simp add: replacer_def Let_def split: sum.splits jsval.splits)

lemma replace_global_shift:
  "replace_global (replacer env params) s (st @ st') = shift st (replace_global (replacer env params) s st')"
proof (induction s arbitrary: st' rule: length_induct)
  case (1 s)
  show ?case
  proof (cases s)
    case Nil
    then show ?thesis by simp
  next
    case (Cons c cs)
    let ?key = "takeWhile isWordChar cs"
    let ?rest = "dropWhile isWordChar cs"
    have rest: "length ?rest < length s" and cs: "length cs < length s"
      using Cons by (simp_all add: less_Suc_eq_le length_dropWhile_le)
    show ?thesis
    proof (cases "c = CHR '':'' \<and> ?key \<noteq> []")
      case True
      have "then_scan (shift st (replacer env params (c # ?key) ?key st'))
              (replace_global (replacer env params) ?rest) =
            shift st (then_scan (replacer env params (c # ?key) ?key st')
              (replace_global (replacer env params) ?rest))"
        by (rule shift_then_scan) (use 1 rest in blast)
      with True Cons show ?thesis
        by (simp add: replace_global_Cons replacer_shift del: replace_global.simps)
    next
      case False
      have "then_scan (shift st (Inr ([c], st'))) (replace_global (replacer env params) cs) =
            shift st (then_scan (Inr ([c], st')) (replace_global (replacer env params) cs))"
        by (rule shift_then_scan) (use 1 cs in blast)
      with False Cons show ?thesis
        by (auto simp add: replace_global_Cons simp del: replace_global.simps)
    qed
  qed
qed

lemma replace_global_from:
  "replace_global (replacer env params) s st = shift st (SqlPilot env s params)"
  using replace_global_shift [of env params s st "[]"] by (simp add: SqlPilot_def)

text \<open>
  The rewrite of a template around one token: the text before it, the callback on the
  token, the text behind it.
\<close>

lemma SqlPilot_token:
  assumes "is_key key" and "boundary post"
  shows "SqlPilot env (pre @ CHR '':'' # key @ post) params =
     then_scan (SqlPilot env pre params)
       (\<lambda>st. then_scan (replacer env params (CHR '':'' # key) key st)
          (\<lambda>st'. shift st' (SqlPilot env post params)))"
proof -
  have "SqlPilot env (pre @ CHR '':'' # key @ post) params =
      then_scan (replace_global (replacer env params) pre [])
        (replace_global (replacer env params) (CHR '':'' # key @ post))"
    unfolding SqlPilot_def by (rule replace_global_append) simp
  also have "replace_global (replacer env params) (CHR '':'' # key @ post) =
      (\<lambda>st. then_scan (replacer env params (CHR '':'' # key) key st)
          (replace_global (replacer env params) post))"
    by (rule ext) (rule replace_global_token [OF assms])
  also have "replace_global (replacer env params) post = (\<lambda>st'. shift st' (SqlPilot env post params))"
    by (rule ext) (rule replace_global_from)
  finally show ?thesis by (simp only: SqlPilot_def)
qed

text \<open>What the callback does where the own-property test is the built-in one.\<close>

lemma js_get_own: "own params k = Some v \<Longrightarrow> js_get params k = v"
  by (cases params) simp

lemma replacer_builtin:
  "builtin_test params \<Longrightarrow>
   replacer env params m key st =
     (case own params key of
        None \<Rightarrow> Inr (m, st)
      | Some v \<Rightarrow>
          (case v of
             Arr items \<Rightarrow>
               Inr (''('' @ join '', '' (map (map_option (\<lambda>_. ''?'')) items) @ '')'',
                 st @ elements items)
           | _ \<Rightarrow> Inr (''?'', st @ [v])))"
  by (auto simp: replacer_def js_call_def builtin_test_def js_get_own
      split: option.splits jsval.splits)

lemma replace_global_returns:
  "builtin_test params \<Longrightarrow> \<exists>out ps. replace_global (replacer env params) s st = Inr (out, ps)"
proof (induction s arbitrary: st rule: length_induct)
  case (1 s)
  show ?case
  proof (cases s)
    case Nil
    then show ?thesis by simp
  next
    case (Cons c cs)
    let ?key = "takeWhile isWordChar cs"
    let ?rest = "dropWhile isWordChar cs"
    have rest: "length ?rest < length s" and cs: "length cs < length s"
      using Cons by (simp_all add: less_Suc_eq_le length_dropWhile_le)
    have "\<exists>r st'. replacer env params (c # ?key) ?key st = Inr (r, st')"
      using 1(2) by (simp add: replacer_builtin split: option.splits jsval.splits)
    then obtain r st' where r: "replacer env params (c # ?key) ?key st = Inr (r, st')"
      by blast
    obtain out ps where a: "replace_global (replacer env params) ?rest st' = Inr (out, ps)"
      using 1 rest by blast
    obtain out' ps' where b: "replace_global (replacer env params) cs st = Inr (out', ps')"
      using 1 cs by blast
    show ?thesis
      using Cons r a b
      by (auto simp add: replace_global_Cons then_scan_Inr simp del: replace_global.simps)
  qed
qed

lemma SqlPilot_returns:
  "builtin_test params \<Longrightarrow> \<exists>out ps. SqlPilot env sql params = Inr (out, ps)"
  unfolding SqlPilot_def by (rule replace_global_returns)

lemma token_result:
  assumes "is_key key" and "boundary post"
    and "SqlPilot env pre params = Inr (s1, p1)" and "SqlPilot env post params = Inr (s2, p2)"
    and "replacer env params (CHR '':'' # key) key p1 = Inr (r, p1 @ ps)"
  shows "SqlPilot env (pre @ CHR '':'' # key @ post) params = Inr (s1 @ r @ s2, p1 @ ps @ p2)"
  using assms(3-5) by (simp add: SqlPilot_token [OF assms(1,2)] then_scan_Inr)

section \<open>Calls that throw\<close>

text \<open>
  C3.  The rewrite does not return for every bindings object.  Where the object has an own
  property named \<^verbatim>\<open>hasOwnProperty\<close> that is no function, or has no prototype, the call
  \<^verbatim>\<open>params.hasOwnProperty(key)\<close> of the first token throws a \<^verbatim>\<open>TypeError\<close>, and so does
  the rewrite.
\<close>

theorem shadowed_hasOwnProperty_throws:
  "SqlPilot env ''SELECT * FROM t WHERE id = :id''
     (object_literal [(''id'', Prim (5::int)), (''hasOwnProperty'', Prim 1)]) = Inl TypeError \<and>
   SqlPilot env ''SELECT * FROM t WHERE id = :id''
     (object_create_null [(''id'', Prim (5::int))]) = Inl TypeError"
  by code_simp

section \<open>Templates without tokens\<close>

lemma has_token_Nil [simp]: "\<not> has_token []"
  by (simp add: has_token_def)

lemma has_token_single [simp]: "\<not> has_token [c]"
  by (simp add: has_token_def)

lemma has_token_Cons2 [simp]:
  "has_token (c # d # ds) \<longleftrightarrow> (c = CHR '':'' \<and> isWordChar d) \<or> has_token (d # ds)"
  by (simp add: has_token_def)

lemma has_token_Cons:
  "has_token (c # cs) \<longleftrightarrow> (c = CHR '':'' \<and> takeWhile isWordChar cs \<noteq> []) \<or> has_token cs"
  by (cases cs) simp_all

text \<open>The predicate says what it should: some part of the string is a colon and a key.\<close>

lemma has_token_append: "has_token post \<Longrightarrow> has_token (pre @ post)"
  by (induction pre) (simp_all add: has_token_Cons)

lemma has_token_iff:
  "has_token sql \<longleftrightarrow> (\<exists>pre key post. sql = pre @ CHR '':'' # key @ post \<and> is_key key)"
proof
  assume "has_token sql"
  then show "\<exists>pre key post. sql = pre @ CHR '':'' # key @ post \<and> is_key key"
  proof (induction sql)
    case Nil
    then show ?case by simp
  next
    case (Cons c cs)
    show ?case
    proof (cases "c = CHR '':'' \<and> takeWhile isWordChar cs \<noteq> []")
      case True
      have "c # cs = [] @ CHR '':'' # takeWhile isWordChar cs @ dropWhile isWordChar cs"
        using True by simp
      moreover have "is_key (takeWhile isWordChar cs)"
        using True by (auto simp: is_key_def list_all_iff dest: set_takeWhileD)
      ultimately show ?thesis by blast
    next
      case False
      with Cons.prems have "has_token cs" by (simp add: has_token_Cons)
      then obtain pre key post where "cs = pre @ CHR '':'' # key @ post" and "is_key key"
        using Cons.IH by blast
      then have "c # cs = (c # pre) @ CHR '':'' # key @ post \<and> is_key key" by simp
      then show ?thesis by blast
    qed
  qed
next
  assume "\<exists>pre key post. sql = pre @ CHR '':'' # key @ post \<and> is_key key"
  then obtain pre key post where sql: "sql = pre @ CHR '':'' # key @ post" and "is_key key"
    by blast
  then obtain d ds where "key = d # ds" and "isWordChar d"
    by (cases key) (auto simp: is_key_def)
  then have "has_token (CHR '':'' # key @ post)" by simp
  then show "has_token sql" unfolding sql by (rule has_token_append)
qed

lemma replace_global_no_token: "\<not> has_token s \<Longrightarrow> replace_global f s st = Inr (s, st)"
  by (induction s) (auto simp: has_token_Cons)

text \<open>
  C6.  A template in which no colon is directly followed by a word character (that is, with
  no part matching the pattern) comes back as it is, with no parameters, whatever the
  bindings object is.
\<close>

theorem no_token_identity: "\<not> has_token sql \<Longrightarrow> SqlPilot env sql params = Inr (sql, [])"
  unfolding SqlPilot_def by (rule replace_global_no_token)

theorem no_token_identity_witness:
  "\<not> has_token ''SELECT a FROM t WHERE b = ? -- note: colons :: and :- stay'' \<and>
   SqlPilot sample_functions
     ''SELECT a FROM t WHERE b = ? -- note: colons :: and :- stay''
     (object_create_null [(''a'', Prim (1::int)), (''hasOwnProperty'', Fn ''f'')]) =
     Inr (''SELECT a FROM t WHERE b = ? -- note: colons :: and :- stay'', [])"
proof -
  have h: "\<not> has_token ''SELECT a FROM t WHERE b = ? -- note: colons :: and :- stay''"
    by code_simp
  from h no_token_identity [OF h] show ?thesis
    by simp
qed

section \<open>Rewriting the output again\<close>






section \<open>Question marks and parameters\<close>

lemma join_Cons:
  "join sep (x # xs) = (if xs = [] then element_text x else element_text x @ sep @ join sep xs)"
  by (cases xs) simp_all

lemma count_join_marks:
  "count_list (join '', '' (map (map_option (\<lambda>_. ''?'')) items)) CHR ''?'' =
   length (elements items)"
proof (induction items)
  case Nil
  then show ?case by simp
next
  case (Cons x items)
  then show ?case
    by (cases x) (simp_all add: join_Cons element_text_def)
qed

lemma mark_not_word [simp]: "\<not> isWordChar CHR ''?''"
  by (simp add: isWordChar_def less_eq_char_def)

lemma count_key_marks: "list_all isWordChar key \<Longrightarrow> count_list key CHR ''?'' = 0"
  by (induction key) auto

lemma replacer_marks:
  assumes "replacer env params (CHR '':'' # key) key st = Inr (r, st')"
    and "list_all isWordChar key"
  shows "count_list r CHR ''?'' + length st = length st'"
  using assms
  by (auto simp: replacer_def Let_def count_join_marks count_key_marks
      split: sum.splits if_splits jsval.splits)

lemma replace_global_marks:
  "replace_global (replacer env params) s st = Inr (out, ps) \<Longrightarrow>
   count_list out CHR ''?'' + length st = count_list s CHR ''?'' + length ps"
proof (induction s arbitrary: st out ps rule: length_induct)
  case (1 s)
  show ?case
  proof (cases s)
    case Nil
    with 1(2) show ?thesis by simp
  next
    case (Cons c cs)
    let ?key = "takeWhile isWordChar cs"
    let ?rest = "dropWhile isWordChar cs"
    have rest: "length ?rest < length s" and cs: "length cs < length s"
      using Cons by (simp_all add: less_Suc_eq_le length_dropWhile_le)
    show ?thesis
    proof (cases "c = CHR '':'' \<and> ?key \<noteq> []")
      case True
      from 1(2) Cons True obtain r st' out' where
        r: "replacer env params (CHR '':'' # ?key) ?key st = Inr (r, st')" and
        k: "replace_global (replacer env params) ?rest st' = Inr (out', ps)" and
        out: "out = r @ out'"
        by (auto simp add: replace_global_Cons then_scan_def simp del: replace_global.simps
            split: sum.splits prod.splits)
      have key: "list_all isWordChar ?key"
        by (auto simp: list_all_iff dest: set_takeWhileD)
      have "count_list cs CHR ''?'' = count_list (?key @ ?rest) CHR ''?''"
        by simp
      then have "count_list s CHR ''?'' = count_list ?rest CHR ''?''"
        using True Cons by (simp only: count_list_append count_key_marks [OF key]) simp
      moreover have "count_list out' CHR ''?'' + length st' = count_list ?rest CHR ''?'' + length ps"
        using 1(1) rest k by blast
      moreover note replacer_marks [OF r key]
      ultimately show ?thesis
        using out by simp
    next
      case False
      from 1(2) Cons False obtain out' where
        k: "replace_global (replacer env params) cs st = Inr (out', ps)" and out: "out = c # out'"
        by (auto simp add: replace_global_Cons then_scan_def simp del: replace_global.simps
            split: sum.splits prod.splits)
      have "count_list out' CHR ''?'' + length st = count_list cs CHR ''?'' + length ps"
        using 1(1) cs k by blast
      then show ?thesis
        using out Cons by simp
    qed
  qed
qed

text \<open>
  C2, as the code has it: the question marks of the output SQL are those the template had
  already plus one for each parameter.  The number of question marks in the output is the
  length of the parameter sequence exactly when the template has none of its own.
\<close>

theorem marks_count:
  "SqlPilot env sql params = Inr (out, ps) \<Longrightarrow>
   count_list out CHR ''?'' = count_list sql CHR ''?'' + length ps"
  unfolding SqlPilot_def by (drule replace_global_marks) simp

theorem marks_count_witness:
  "SqlPilot sample_functions ''SELECT * FROM t WHERE a = ? AND b IN :b AND c = :c''
     (object_literal [(''b'', Arr [Some (Prim (2::int)), None, Some (Prim 3)]),
        (''hasOwnProperty'', Fn ''returnsTrue'')]) =
     Inr (''SELECT * FROM t WHERE a = ? AND b IN (?, , ?) AND c = ?'',
       [Prim 2, Prim 3, Undefined]) \<and>
   count_list ''SELECT * FROM t WHERE a = ? AND b IN (?, , ?) AND c = ?'' CHR ''?'' =
     count_list ''SELECT * FROM t WHERE a = ? AND b IN :b AND c = :c'' CHR ''?'' +
     length [Prim (2::int), Prim 3, Undefined]"
proof -
  have h: "SqlPilot sample_functions
     ''SELECT * FROM t WHERE a = ? AND b IN :b AND c = :c''
     (object_literal [(''b'', Arr [Some (Prim (2::int)), None, Some (Prim 3)]),
        (''hasOwnProperty'', Fn ''returnsTrue'')]) =
     Inr (''SELECT * FROM t WHERE a = ? AND b IN (?, , ?) AND c = ?'',
       [Prim 2, Prim 3, Undefined])"
    by code_simp
  from h marks_count [OF h] show ?thesis
    by simp
qed

text \<open>
  The claim C2 as it is written fails on a template with a question mark of its own: the
  output below has two question marks and one parameter.
\<close>

theorem marks_count_counterexample:
  "SqlPilot sample_functions ''SELECT * FROM t WHERE a = ? AND b = :b''
     (object_literal [(''b'', Prim (2::int))]) =
     Inr (''SELECT * FROM t WHERE a = ? AND b = ?'', [Prim 2]) \<and>
   count_list ''SELECT * FROM t WHERE a = ? AND b = ?'' CHR ''?'' \<noteq> length [Prim (2::int)]"
  by code_simp

section \<open>Where the own-property test is the built-in one\<close>

text \<open>
  On the bindings objects whose \<^verbatim>\<open>hasOwnProperty\<close> is the built-in method the rewrite
  always returns, and a token is replaced in place according to what its key is bound to.
\<close>

lemma elements_map_Some [simp]: "elements (map Some xs) = xs"
  by (induction xs) simp_all

lemma marks_dense:
  "map (map_option (\<lambda>_. ''?'') \<circ> Some) items = replicate (length items) (Some ''?'')"
  by (induction items) simp_all

lemma builtin_sequence_expansion:
  assumes "builtin_test params" and "is_key key" and "boundary post"
    and "own params key = Some (Arr (map Some items))" and "length items = n"
  shows "\<exists>s1 p1 s2 p2.
     SqlPilot env pre params = Inr (s1, p1) \<and> SqlPilot env post params = Inr (s2, p2) \<and>
     SqlPilot env (pre @ CHR '':'' # key @ post) params =
       Inr (s1 @ ''('' @ join '', '' (replicate n (Some ''?'')) @ '')'' @ s2, p1 @ items @ p2)"
proof -
  obtain s1 p1 where pre: "SqlPilot env pre params = Inr (s1, p1)"
    using SqlPilot_returns [OF assms(1)] by blast
  obtain s2 p2 where post: "SqlPilot env post params = Inr (s2, p2)"
    using SqlPilot_returns [OF assms(1)] by blast
  have "replacer env params (CHR '':'' # key) key p1 =
      Inr (''('' @ join '', '' (replicate n (Some ''?'')) @ '')'', p1 @ items)"
    using assms(4,5) by (simp add: replacer_builtin [OF assms(1)] marks_dense)
  from token_result [OF assms(2,3) pre post this] pre post show ?thesis
    by simp
qed

lemma builtin_unknown_key:
  assumes "builtin_test params" and "is_key key" and "boundary post"
    and "own params key = None"
  shows "\<exists>s1 p1 s2 p2.
     SqlPilot env pre params = Inr (s1, p1) \<and> SqlPilot env post params = Inr (s2, p2) \<and>
     SqlPilot env (pre @ CHR '':'' # key @ post) params =
       Inr (s1 @ CHR '':'' # key @ s2, p1 @ p2)"
proof -
  obtain s1 p1 where pre: "SqlPilot env pre params = Inr (s1, p1)"
    using SqlPilot_returns [OF assms(1)] by blast
  obtain s2 p2 where post: "SqlPilot env post params = Inr (s2, p2)"
    using SqlPilot_returns [OF assms(1)] by blast
  have "replacer env params (CHR '':'' # key) key p1 = Inr (CHR '':'' # key, p1 @ [])"
    using assms(4) by (simp add: replacer_builtin [OF assms(1)])
  from token_result [OF assms(2,3) pre post this] pre post show ?thesis
    by simp
qed

lemma boundary_append: "boundary s \<Longrightarrow> boundary t \<Longrightarrow> boundary (s @ t)"
  by (cases s) (simp_all add: boundary_def)

lemma boundary_tokens: "boundary (concat (map (\<lambda>s. CHR '':'' # key @ s) segs))"
  by (cases segs) (simp_all add: boundary_def)

lemma builtin_repeated_scalar_key:
  assumes "builtin_test params" and "is_key key" and "own params key = Some v"
    and "shape v = None"
    and "\<not> has_token s0" and "\<forall>s \<in> set segs. \<not> has_token s \<and> boundary s"
  shows "SqlPilot env (s0 @ concat (map (\<lambda>s. CHR '':'' # key @ s) segs)) params =
     Inr (s0 @ concat (map (\<lambda>s. CHR ''?'' # s) segs), replicate (length segs) v)"
  using assms(5,6)
proof (induction segs arbitrary: s0)
  case Nil
  then show ?case by (simp add: SqlPilot_def replace_global_no_token)
next
  case (Cons s segs)
  let ?post = "s @ concat (map (\<lambda>s. CHR '':'' # key @ s) segs)"
  have post: "SqlPilot env ?post params =
      Inr (s @ concat (map (\<lambda>s. CHR ''?'' # s) segs), replicate (length segs) v)"
    using Cons.prems by (intro Cons.IH) simp_all
  have pre: "SqlPilot env s0 params = Inr (s0, [])"
    using Cons.prems(1) by (simp add: SqlPilot_def replace_global_no_token)
  have b: "boundary ?post"
    using Cons.prems(2) by (simp add: boundary_append boundary_tokens)
  have r: "replacer env params (CHR '':'' # key) key [] = Inr (''?'', [] @ [v])"
    using assms(3,4) by (simp add: replacer_builtin [OF assms(1)] shape_def split: jsval.splits)
  from token_result [OF assms(2) b pre post r] show ?case
    by simp
qed

lemma replacer_text:
  fixes p :: "'a jsobj"
  assumes "builtin_test p" and "replacer env p m key st = Inr (r, t)"
  shows "r = (case map_option layout (own p key) of
          None \<Rightarrow> m
        | Some None \<Rightarrow> ''?''
        | Some (Some holes) \<Rightarrow>
            ''('' @ join '', '' (map (\<lambda>h. if h then None else Some ''?'') holes) @ '')'')"
proof -
  have "(map_option (\<lambda>_. ''?'') :: 'a jsval option \<Rightarrow> string option) =
      (\<lambda>h. if h then None else Some ''?'') \<circ> (\<lambda>x. x = None)"
    by (rule ext) (simp add: option.map_sel split: option.splits)
  with assms(2) show ?thesis
    by (auto simp: replacer_builtin [OF assms(1)] layout_def split: option.splits jsval.splits)
qed

lemma replace_global_same_text:
  assumes "builtin_test p1" and "builtin_test p2"
    and "\<forall>key. map_option layout (own p1 key) = map_option layout (own p2 key)"
  shows "replace_global (replacer env1 p1) s st1 = Inr (o1, t1) \<Longrightarrow>
    replace_global (replacer env2 p2) s st2 = Inr (o2, t2) \<Longrightarrow> o1 = o2"
proof (induction s arbitrary: st1 st2 o1 o2 t1 t2 rule: length_induct)
  case (1 s)
  show ?case
  proof (cases s)
    case Nil
    with 1(2,3) show ?thesis by simp
  next
    case (Cons c cs)
    let ?key = "takeWhile isWordChar cs"
    let ?rest = "dropWhile isWordChar cs"
    have rest: "length ?rest < length s" and cs: "length cs < length s"
      using Cons by (simp_all add: less_Suc_eq_le length_dropWhile_le)
    show ?thesis
    proof (cases "c = CHR '':'' \<and> ?key \<noteq> []")
      case True
      from 1(2) Cons True obtain r1 st1' out1 where
        r1: "replacer env1 p1 (CHR '':'' # ?key) ?key st1 = Inr (r1, st1')" and
        k1: "replace_global (replacer env1 p1) ?rest st1' = Inr (out1, t1)" and
        o1: "o1 = r1 @ out1"
        by (auto simp add: replace_global_Cons then_scan_def simp del: replace_global.simps
            split: sum.splits prod.splits)
      from 1(3) Cons True obtain r2 st2' out2 where
        r2: "replacer env2 p2 (CHR '':'' # ?key) ?key st2 = Inr (r2, st2')" and
        k2: "replace_global (replacer env2 p2) ?rest st2' = Inr (out2, t2)" and
        o2: "o2 = r2 @ out2"
        by (auto simp add: replace_global_Cons then_scan_def simp del: replace_global.simps
            split: sum.splits prod.splits)
      have "r1 = r2"
        using replacer_text [OF assms(1) r1] replacer_text [OF assms(2) r2] assms(3) by simp
      moreover have "out1 = out2"
        using 1(1) rest k1 k2 by blast
      ultimately show ?thesis
        using o1 o2 by simp
    next
      case False
      from 1(2) Cons False obtain out1 where
        k1: "replace_global (replacer env1 p1) cs st1 = Inr (out1, t1)" and o1: "o1 = c # out1"
        by (auto simp add: replace_global_Cons then_scan_def simp del: replace_global.simps
            split: sum.splits prod.splits)
      from 1(3) Cons False obtain out2 where
        k2: "replace_global (replacer env2 p2) cs st2 = Inr (out2, t2)" and o2: "o2 = c # out2"
        by (auto simp add: replace_global_Cons then_scan_def simp del: replace_global.simps
            split: sum.splits prod.splits)
      have "out1 = out2"
        using 1(1) cs k1 k2 by blast
      then show ?thesis
        using o1 o2 by simp
    qed
  qed
qed

lemma builtin_same_layout_same_sql:
  assumes "builtin_test p1" and "builtin_test p2"
    and "\<forall>key. map_option layout (own p1 key) = map_option layout (own p2 key)"
  shows "\<exists>out ps1 ps2. SqlPilot env1 sql p1 = Inr (out, ps1) \<and> SqlPilot env2 sql p2 = Inr (out, ps2)"
proof -
  obtain o1 ps1 where a: "SqlPilot env1 sql p1 = Inr (o1, ps1)"
    using SqlPilot_returns [OF assms(1)] by blast
  obtain o2 ps2 where b: "SqlPilot env2 sql p2 = Inr (o2, ps2)"
    using SqlPilot_returns [OF assms(2)] by blast
  have "o1 = o2"
    using a b unfolding SqlPilot_def by (rule replace_global_same_text [OF assms])
  with a b show ?thesis by blast
qed

section \<open>Where the own-property test is not the built-in one\<close>

text \<open>
  \<^verbatim>\<open>params.hasOwnProperty(key)\<close> is looked up on the bindings object itself.  An own
  property named \<^verbatim>\<open>hasOwnProperty\<close>, or a missing prototype, changes what the call does,
  for every token of the template.
\<close>

text \<open>
  C1.  The token of a key bound to an array of three elements is not replaced by a group of
  three question marks, and the elements are not appended, where the bindings object also
  has an own property \<^verbatim>\<open>hasOwnProperty\<close> that is no function: the rewrite throws a
  \<^verbatim>\<open>TypeError\<close>.
\<close>

theorem sequence_expansion_throws:
  "SqlPilot env ''SELECT * FROM posts WHERE id IN :postIds''
     (object_literal
       [(''postIds'', Arr [Some (Prim (1::int)), Some (Prim 2), Some (Prim 3)]),
        (''hasOwnProperty'', Prim 1)]) = Inl TypeError"
  by code_simp

text \<open>
  An array with a hole has a length of three and two elements: the group keeps a place
  for the hole, and two values are appended.
\<close>

lemma sparse_array_expansion:
  "SqlPilot env ''SELECT * FROM posts WHERE id IN :postIds''
     (object_literal [(''postIds'', Arr [Some (Prim (1::int)), None, Some (Prim 3)])]) =
   Inr (''SELECT * FROM posts WHERE id IN (?, , ?)'', [Prim 1, Prim 3])"
  by code_simp

text \<open>
  C4.  The token of a key that the bindings object does not have is not passed through
  where the object has no prototype (the rewrite throws a \<^verbatim>\<open>TypeError\<close>), nor where an own
  \<^verbatim>\<open>hasOwnProperty\<close> is a function that answers true (the token becomes a question mark
  and \<^verbatim>\<open>undefined\<close> is appended).
\<close>

theorem unknown_key_throws:
  "SqlPilot env ''SELECT * FROM t WHERE b = :y''
     (object_create_null ([] :: (string \<times> int jsval) list)) = Inl TypeError \<and>
   SqlPilot sample_functions ''SELECT * FROM t WHERE b = :y''
     (object_literal [(''hasOwnProperty'', Fn ''returnsTrue'')]) =
     Inr (''SELECT * FROM t WHERE b = ?'', [Undefined :: int jsval])"
  by code_simp

text \<open>
  C5.  The token of a key bound to the empty array is not replaced by \<open>()\<close> where the
  bindings object also has an own property \<^verbatim>\<open>hasOwnProperty\<close> that is no function, nor
  where the key is \<^verbatim>\<open>hasOwnProperty\<close> itself: the rewrite throws a \<^verbatim>\<open>TypeError\<close>.
\<close>

theorem empty_sequence_throws:
  "SqlPilot env ''DELETE FROM t WHERE id IN :ids''
     (object_literal [(''ids'', Arr []), (''hasOwnProperty'', Prim (1::int))]) = Inl TypeError \<and>
   SqlPilot env ''DELETE FROM t WHERE id IN :hasOwnProperty''
     (object_literal [(''hasOwnProperty'', Arr ([] :: int jsval option list))]) = Inl TypeError"
  by code_simp

text \<open>
  C8.  A key bound to a scalar and used three times does not give three question marks and
  the value three times where the bindings object also has an own property
  \<^verbatim>\<open>hasOwnProperty\<close> that is no function: the rewrite throws a \<^verbatim>\<open>TypeError\<close>.
\<close>

theorem repeated_scalar_key_throws:
  "SqlPilot env ''SELECT * FROM a, b WHERE a.u = :userId AND b.u = :userId AND :userId > 0''
     (object_literal [(''userId'', Prim (1::int)), (''hasOwnProperty'', Prim 0)]) =
   Inl TypeError"
  by code_simp

text \<open>
  C9.  Two bindings objects with the same own keys, none of them bound to an array, give
  different output SQL for one template: the function bound under \<^verbatim>\<open>hasOwnProperty\<close>
  answers true in the first and false in the second.
\<close>

theorem output_sql_depends_on_values:
  "(\<forall>key.
      map_option shape
        (own (object_literal [(''id'', Prim (5::int)), (''hasOwnProperty'', Fn ''returnsTrue'')]) key) =
      map_option shape
        (own (object_literal [(''id'', Prim (5::int)), (''hasOwnProperty'', Fn ''returnsFalse'')]) key)) \<and>
   SqlPilot sample_functions ''SELECT * FROM t WHERE id = :id''
     (object_literal [(''id'', Prim (5::int)), (''hasOwnProperty'', Fn ''returnsTrue'')]) =
     Inr (''SELECT * FROM t WHERE id = ?'', [Prim 5]) \<and>
   SqlPilot sample_functions ''SELECT * FROM t WHERE id = :id''
     (object_literal [(''id'', Prim (5::int)), (''hasOwnProperty'', Fn ''returnsFalse'')]) =
     Inr (''SELECT * FROM t WHERE id = :id'', [])"
proof -
  have "\<forall>key.
      map_option shape
        (own (object_literal [(''id'', Prim (5::int)), (''hasOwnProperty'', Fn ''returnsTrue'')]) key) =
      map_option shape
        (own (object_literal [(''id'', Prim (5::int)), (''hasOwnProperty'', Fn ''returnsFalse'')]) key)"
    by (simp add: object_literal_def shape_def)
  moreover have "SqlPilot sample_functions ''SELECT * FROM t WHERE id = :id''
     (object_literal [(''id'', Prim (5::int)), (''hasOwnProperty'', Fn ''returnsTrue'')]) =
     Inr (''SELECT * FROM t WHERE id = ?'', [Prim 5])"
    by code_simp
  moreover have "SqlPilot sample_functions ''SELECT * FROM t WHERE id = :id''
     (object_literal [(''id'', Prim (5::int)), (''hasOwnProperty'', Fn ''returnsFalse'')]) =
     Inr (''SELECT * FROM t WHERE id = :id'', [])"
    by code_simp
  ultimately show ?thesis by blast
qed

text \<open>
  The same for two arrays of one length, with and without a hole.
\<close>

lemma sparse_array_changes_sql:
  "shape (Arr [Some (Prim (1::int)), None, Some (Prim 3)]) =
     shape (Arr [Some (Prim (1::int)), Some (Prim 2), Some (Prim 3)]) \<and>
   SqlPilot env ''DELETE FROM t WHERE id IN :ids''
     (object_literal [(''ids'', Arr [Some (Prim (1::int)), None, Some (Prim 3)])]) =
     Inr (''DELETE FROM t WHERE id IN (?, , ?)'', [Prim 1, Prim 3]) \<and>
   SqlPilot env ''DELETE FROM t WHERE id IN :ids''
     (object_literal [(''ids'', Arr [Some (Prim (1::int)), Some (Prim 2), Some (Prim 3)])]) =
     Inr (''DELETE FROM t WHERE id IN (?, ?, ?)'', [Prim 1, Prim 2, Prim 3])"
  by (simp add: shape_def) code_simp

text \<open>
  C10.  A token whose key names a property that the bindings object only inherits
  (\<^verbatim>\<open>toString\<close>) is not always treated as absent: where an own \<^verbatim>\<open>hasOwnProperty\<close> is no
  function the rewrite throws a \<^verbatim>\<open>TypeError\<close>, and where it is a function that answers true
  the token becomes a question mark and the inherited method is appended.
\<close>

theorem inherited_key_not_absent:
  "SqlPilot env ''SELECT :toString FROM t''
     (object_literal [(''hasOwnProperty'', Prim (1::int))]) = Inl TypeError \<and>
   SqlPilot sample_functions ''SELECT :toString FROM t''
     (object_literal [(''hasOwnProperty'', Fn ''returnsTrue'')]) =
     Inr (''SELECT ? FROM t'', [Fn ''toString'' :: int jsval])"
  by code_simp

end
